theory Spec2Isabelle
  imports Main
begin

section \<open>Python primitives used by the notebooks\<close>

text \<open>
  The sharding routine of the two distributed-training notebooks uses integer floor
  division, \<open>assert\<close>, \<open>range\<close>, list indexing, slicing, \<open>str.format\<close> and
  \<open>os.path.join\<close>. Every way in which these raise is a value of \<open>py_error\<close>.
\<close>

datatype py_error =
    ZeroDivisionError
  | AssertionError
  | ValueError
  | IndexError
  | FileNotFoundError

text \<open>\<open>a // b\<close>: floor division, which is \<open>div\<close> on \<open>int\<close>; a zero divisor raises.\<close>

definition py_floordiv :: "int \<Rightarrow> int \<Rightarrow> py_error + int" where
  "py_floordiv a b = (if b = 0 then Inl ZeroDivisionError else Inr (a div b))"

text \<open>
  \<open>list(range(start, stop, step))\<close>: a zero step raises \<open>ValueError\<close>; otherwise the
  list has \<open>max 0 \<lceil>(stop - start) / step\<rceil>\<close> elements \<open>start + j * step\<close>.
\<close>

definition py_range :: "int \<Rightarrow> int \<Rightarrow> int \<Rightarrow> py_error + int list" where
  "py_range start stop step =
     (if step = 0 then Inl ValueError
      else if 0 < step then
        Inr (map (\<lambda>j. start + int j * step) [0..<nat ((stop - start + step - 1) div step)])
      else
        Inr (map (\<lambda>j. start + int j * step) [0..<nat ((start - stop - step - 1) div (- step))]))"

text \<open>\<open>range(k)\<close> with its single argument: \<open>0, 1, ..., k - 1\<close>, empty when \<open>k \<le> 0\<close>.\<close>

definition py_range1 :: "int \<Rightarrow> int list" where
  "py_range1 k = map int [0..<nat k]"

text \<open>
  \<open>xs[i]\<close>: an index from \<open>0\<close> up to the length reads from the front, one from
  \<open>-1\<close> down to minus the length reads from the back, any other one raises.
\<close>

definition py_index :: "'a list \<Rightarrow> int \<Rightarrow> py_error + 'a" where
  "py_index xs i =
     (if 0 \<le> i \<and> i < int (length xs) then Inr (xs ! nat i)
      else if i < 0 \<and> - int (length xs) \<le> i then Inr (xs ! nat (int (length xs) + i))
      else Inl IndexError)"

text \<open>\<open>xs[a:b]\<close>: both bounds are clamped to the length, negative ones count from the end.\<close>

definition slice_bound :: "int \<Rightarrow> int \<Rightarrow> nat" where
  "slice_bound n a = nat (if a < 0 then max (a + n) 0 else min a n)"

definition py_slice :: "'a list \<Rightarrow> int \<Rightarrow> int \<Rightarrow> 'a list" where
  "py_slice xs a b =
     (let n = int (length xs); lo = slice_bound n a; hi = slice_bound n b
      in take (hi - lo) (drop lo xs))"

text \<open>\<open>'{}'.format(i)\<close> for an integer: its decimal digits, with a sign when negative.\<close>

definition digit_char :: "nat \<Rightarrow> char" where
  "digit_char d = ''0123456789'' ! d"

fun digits_of :: "nat \<Rightarrow> string" where
  "digits_of n =
     (if n < 10 then [digit_char n] else digits_of (n div 10) @ [digit_char (n mod 10)])"

declare digits_of.simps [simp del]

definition format_int :: "int \<Rightarrow> string" where
  "format_int i = (if i < 0 then CHR ''-'' # digits_of (nat (- i)) else digits_of (nat i))"

text \<open>
  \<open>os.path.join(a, b)\<close> on POSIX: an absolute second component replaces the first,
  otherwise the two are joined with one slash unless the first already ends with one.
\<close>

definition os_path_join :: "string \<Rightarrow> string \<Rightarrow> string" where
  "os_path_join a b =
     (if b \<noteq> [] \<and> hd b = CHR ''/'' then b
      else if a = [] \<or> last a = CHR ''/'' then a @ b
      else a @ ''/'' @ b)"

section \<open>The local file system and the object store\<close>

text \<open>
  An array is the list of its entries along the first axis (the rows of \<open>X\<close>, the
  scalars of \<open>y\<close>); \<open>len\<close> is \<open>length\<close> and \<open>X[a:b]\<close> is \<open>py_slice\<close>. The dictionary
  handed to \<open>mx.nd.save\<close> is an association list from names to arrays.

  \<open>mx.nd.save\<close> and \<open>s3.upload_file\<close> belong to external libraries. They are modelled
  by what they do when they succeed: the first writes the file at the local path, the
  second copies the file at the local path to the key of the bucket, and raises when
  there is no such file. Both are recorded in a trace, in the order of the calls. The
  \<open>print\<close> calls of the notebooks are not modelled.
\<close>

type_synonym 'a artifact = "(string \<times> 'a list) list"

datatype 'a effect =
    Save string "'a artifact"
  | Upload string string string

record 'a world =
  local_fs :: "string \<rightharpoonup> 'a artifact"
  s3_store :: "string \<times> string \<rightharpoonup> 'a artifact"
  trace :: "'a effect list"

definition empty_world :: "'a world" where
  "empty_world = \<lparr>local_fs = Map.empty, s3_store = Map.empty, trace = []\<rparr>"

definition nd_save :: "'a world \<Rightarrow> string \<Rightarrow> 'a artifact \<Rightarrow> 'a world" where
  "nd_save w local_path d =
     w\<lparr>local_fs := (local_fs w)(local_path \<mapsto> d), trace := trace w @ [Save local_path d]\<rparr>"

definition s3_upload_file ::
  "'a world \<Rightarrow> string \<Rightarrow> string \<Rightarrow> string \<Rightarrow> 'a world \<times> (py_error + unit)" where
  "s3_upload_file w local_path bucket key =
     (case local_fs w local_path of
        None \<Rightarrow> (w, Inl FileNotFoundError)
      | Some d \<Rightarrow>
          (w\<lparr>s3_store := (s3_store w)((bucket, key) \<mapsto> d),
             trace := trace w @ [Upload local_path bucket key]\<rparr>, Inr ()))"

section \<open>The notebooks' globals\<close>

definition bucket_name :: string where
  "bucket_name = ''eduthie-sagemaker-1''"

definition prefix :: string where
  "prefix = ''distributed_training_gluon_lab/''"

definition local_dir :: string where
  "local_dir = ''/tmp''"

section \<open>save_and_upload\<close>

text \<open>
  The two notebooks differ in the format of the key: the first one (part 000) has
  \<open>'{}/{}/{}'.format(prefix,target_folder,file_name)\<close>, the second one (part 001) has
  \<open>'{}{}/{}'.format(prefix,target_folder,file_name)\<close>.
\<close>

definition upload_filename0 :: "string \<Rightarrow> string \<Rightarrow> string" where
  "upload_filename0 target_folder file_name =
     prefix @ ''/'' @ target_folder @ ''/'' @ file_name"

definition upload_filename1 :: "string \<Rightarrow> string \<Rightarrow> string" where
  "upload_filename1 target_folder file_name =
     prefix @ target_folder @ ''/'' @ file_name"

definition save_and_upload0 ::
  "'a world \<Rightarrow> 'a list \<Rightarrow> 'a list \<Rightarrow> string \<Rightarrow> int \<Rightarrow> 'a world \<times> (py_error + unit)" where
  "save_and_upload0 w X y target_folder i =
     (let file_name = format_int i;
          local_path = os_path_join local_dir file_name;
          w1 = nd_save w local_path [(''X'', X), (''y'', y)];
          upload_filename = upload_filename0 target_folder file_name
      in s3_upload_file w1 local_path bucket_name upload_filename)"

definition save_and_upload1 ::
  "'a world \<Rightarrow> 'a list \<Rightarrow> 'a list \<Rightarrow> string \<Rightarrow> int \<Rightarrow> 'a world \<times> (py_error + unit)" where
  "save_and_upload1 w X y target_folder i =
     (let file_name = format_int i;
          local_path = os_path_join local_dir file_name;
          w1 = nd_save w local_path [(''X'', X), (''y'', y)];
          upload_filename = upload_filename1 target_folder file_name
      in s3_upload_file w1 local_path bucket_name upload_filename)"

section \<open>split_and_upload\<close>

text \<open>
  The first three lines, the same in both notebooks:
  \<^verbatim>\<open>
    n = len(X)
    assert (n//k)*k == n
    idx = list(range(0, n+1, n//k))
  \<close>
\<close>

definition split_idx :: "int \<Rightarrow> int \<Rightarrow> py_error + int list" where
  "split_idx n k =
     (case py_floordiv n k of
        Inl e \<Rightarrow> Inl e
      | Inr q \<Rightarrow>
          if q * k \<noteq> n then Inl AssertionError
          else (case py_floordiv n k of
                  Inl e \<Rightarrow> Inl e
                | Inr step \<Rightarrow> py_range 0 (n + 1) step))"

text \<open>The comprehension \<open>[X[idx[i]:idx[i+1]] for i in range(k)]\<close>, over the list of the \<open>i\<close>.\<close>

fun shard_list :: "'a list \<Rightarrow> int list \<Rightarrow> int list \<Rightarrow> py_error + 'a list list" where
  "shard_list X idx [] = Inr []"
| "shard_list X idx (i # rest) =
     (case py_index idx i of
        Inl e \<Rightarrow> Inl e
      | Inr a \<Rightarrow>
          (case py_index idx (i + 1) of
             Inl e \<Rightarrow> Inl e
           | Inr b \<Rightarrow>
               (case shard_list X idx rest of
                  Inl e \<Rightarrow> Inl e
                | Inr shards \<Rightarrow> Inr (py_slice X a b # shards))))"

text \<open>
  The loop \<open>for Xi,yi,i in zip(X_shards,y_shards,range(k))\<close> around the call of
  \<open>save_and_upload\<close>; an exception of the body ends the loop.
\<close>

fun for_shards ::
  "('a world \<Rightarrow> 'a list \<Rightarrow> 'a list \<Rightarrow> string \<Rightarrow> int \<Rightarrow> 'a world \<times> (py_error + unit)) \<Rightarrow>
   'a world \<Rightarrow> string \<Rightarrow> ('a list \<times> 'a list \<times> int) list \<Rightarrow> 'a world \<times> (py_error + unit)" where
  "for_shards body w target_folder [] = (w, Inr ())"
| "for_shards body w target_folder ((Xi, yi, i) # rest) =
     (case body w Xi yi target_folder i of
        (w', Inl e) \<Rightarrow> (w', Inl e)
      | (w', Inr u) \<Rightarrow> for_shards body w' target_folder rest)"

definition split_and_upload0 ::
  "'a world \<Rightarrow> 'a list \<Rightarrow> 'a list \<Rightarrow> int \<Rightarrow> string \<Rightarrow> 'a world \<times> (py_error + unit)" where
  "split_and_upload0 w X y k target_folder =
     (let n = int (length X) in
      case split_idx n k of
        Inl e \<Rightarrow> (w, Inl e)
      | Inr idx \<Rightarrow>
          (case shard_list X idx (py_range1 k) of
             Inl e \<Rightarrow> (w, Inl e)
           | Inr X_shards \<Rightarrow>
               (case shard_list y idx (py_range1 k) of
                  Inl e \<Rightarrow> (w, Inl e)
                | Inr y_shards \<Rightarrow>
                    for_shards save_and_upload0 w target_folder
                      (zip X_shards (zip y_shards (py_range1 k))))))"

definition split_and_upload1 ::
  "'a world \<Rightarrow> 'a list \<Rightarrow> 'a list \<Rightarrow> int \<Rightarrow> string \<Rightarrow> 'a world \<times> (py_error + unit)" where
  "split_and_upload1 w X y k target_folder =
     (let n = int (length X) in
      case split_idx n k of
        Inl e \<Rightarrow> (w, Inl e)
      | Inr idx \<Rightarrow>
          (case shard_list X idx (py_range1 k) of
             Inl e \<Rightarrow> (w, Inl e)
           | Inr X_shards \<Rightarrow>
               (case shard_list y idx (py_range1 k) of
                  Inl e \<Rightarrow> (w, Inl e)
                | Inr y_shards \<Rightarrow>
                    for_shards save_and_upload1 w target_folder
                      (zip X_shards (zip y_shards (py_range1 k))))))"

section \<open>What a run is expected to leave behind\<close>

text \<open>
  The notions the statements below are written in: the local path and the file of a
  shard, the two effects of one call of \<open>save_and_upload\<close>, the world after it, and
  the partition of an array into \<open>k\<close> consecutive slices of \<open>s\<close> entries.
\<close>

definition shard_path :: "int \<Rightarrow> string" where
  "shard_path i = os_path_join local_dir (format_int i)"

definition shard_file :: "'a list \<Rightarrow> 'a list \<Rightarrow> 'a artifact" where
  "shard_file X y = [(''X'', X), (''y'', y)]"

definition shard_effects ::
  "(string \<Rightarrow> string \<Rightarrow> string) \<Rightarrow> string \<Rightarrow> 'a list \<times> 'a list \<times> int \<Rightarrow> 'a effect list" where
  "shard_effects keyf folder t =
     (case t of (X, y, i) \<Rightarrow>
        [Save (shard_path i) (shard_file X y),
         Upload (shard_path i) bucket_name (keyf folder (format_int i))])"

definition put_shard ::
  "(string \<Rightarrow> string \<Rightarrow> string) \<Rightarrow> string \<Rightarrow> 'a list \<times> 'a list \<times> int \<Rightarrow> 'a world \<Rightarrow> 'a world" where
  "put_shard keyf folder t w =
     (case t of (X, y, i) \<Rightarrow>
        w\<lparr>local_fs := (local_fs w)(shard_path i \<mapsto> shard_file X y),
          s3_store := (s3_store w)((bucket_name, keyf folder (format_int i)) \<mapsto> shard_file X y),
          trace := trace w @ shard_effects keyf folder (X, y, i)\<rparr>)"

definition slices :: "'a list \<Rightarrow> nat \<Rightarrow> nat \<Rightarrow> 'a list list" where
  "slices X s k = map (\<lambda>i. take s (drop (i * s) X)) [0..<k]"

definition shard_triples :: "'a list \<Rightarrow> 'a list \<Rightarrow> int \<Rightarrow> ('a list \<times> 'a list \<times> int) list" where
  "shard_triples X y k =
     (let s = length X div nat k
      in zip (slices X s (nat k)) (zip (slices y s (nat k)) (py_range1 k)))"


text \<open>
  What a trace shows of the local files: the paths written and the files written, in
  the order of the writes. \<open>erase_key\<close> forgets the key of an upload, to compare the
  traces of the two notebooks.
\<close>

definition saved_paths :: "'a effect list \<Rightarrow> string list" where
  "saved_paths es = concat (map (\<lambda>e. case e of Save p d \<Rightarrow> [p] | Upload p b key \<Rightarrow> []) es)"

definition saved_files :: "'a effect list \<Rightarrow> 'a artifact list" where
  "saved_files es = concat (map (\<lambda>e. case e of Save p d \<Rightarrow> [d] | Upload p b key \<Rightarrow> []) es)"

fun erase_key :: "'a effect \<Rightarrow> 'a effect" where
  "erase_key (Save p d) = Save p d"
| "erase_key (Upload p b key) = Upload p b []"

section \<open>The training entry point\<close>

text \<open>
  Modelled from the spec: the three synchronization modes among which \<open>train\<close>
  chooses. The function \<open>train\<close> lives in \<open>multiple_regression.py\<close>, which the
  notebooks import and call but which is not among the sources.
\<close>

datatype sync_mode = Local | DistributedSync | DistributedAsync

fun is_distributed :: "sync_mode \<Rightarrow> bool" where
  "is_distributed Local = False"
| "is_distributed DistributedSync = True"
| "is_distributed DistributedAsync = True"

text \<open>
  Modelled from the spec: the selection of the synchronization mode in \<open>train\<close>
  (missing: \<open>multiple_regression.py\<close>). A distributed mode is selected when more than
  one host identifier is present, the local mode otherwise. Which of the distributed
  modes is taken is left open by the spec; it is the flag \<open>sync\<close> here.
\<close>

definition select_mode :: "bool \<Rightarrow> string list \<Rightarrow> sync_mode" where
  "select_mode sync hosts =
     (if length hosts > 1 then (if sync then DistributedSync else DistributedAsync)
      else Local)"

text \<open>
  Modelled from the spec: one epoch of \<open>train\<close> (missing: \<open>multiple_regression.py\<close>).
  It iterates once over the batches, with one optimizer step per batch; \<open>step\<close> takes
  the parameters and a batch to the new parameters and the loss of the batch.
\<close>

fun run_epoch :: "('p \<Rightarrow> 'b \<Rightarrow> 'p \<times> 'l) \<Rightarrow> 'p \<Rightarrow> 'b list \<Rightarrow> 'p \<times> 'l list" where
  "run_epoch step p [] = (p, [])"
| "run_epoch step p (b # bs) =
     (case step p b of (p', l) \<Rightarrow>
        (case run_epoch step p' bs of (p'', ls) \<Rightarrow> (p'', l # ls)))"

text \<open>
  Modelled from the spec: the epoch loop of \<open>train\<close> (missing:
  \<open>multiple_regression.py\<close>). Every epoch reports the average of its batch losses;
  the epoch count is the only termination condition. The average of no loss at all is
  not defined, and the run fails (\<open>None\<close>) in an epoch without a batch.
\<close>

fun run_epochs ::
  "('p \<Rightarrow> 'b \<Rightarrow> 'p \<times> 'l) \<Rightarrow> ('l list \<Rightarrow> 'l) \<Rightarrow> nat \<Rightarrow> 'p \<Rightarrow> 'b list \<Rightarrow> 'l list option" where
  "run_epochs step mean 0 p bs = Some []"
| "run_epochs step mean (Suc N) p bs =
     (case run_epoch step p bs of (p', ls) \<Rightarrow>
        if ls = [] then None
        else (case run_epochs step mean N p' bs of
                None \<Rightarrow> None
              | Some rest \<Rightarrow> Some (mean ls # rest)))"

text \<open>
  Modelled from the spec: \<open>train\<close> itself (missing: \<open>multiple_regression.py\<close>), as far
  as the spec describes it: the mode it selects from the hosts and the losses it reports
  for \<open>epochs\<close> epochs over the batches of the local data.
\<close>

definition train ::
  "('p \<Rightarrow> 'b \<Rightarrow> 'p \<times> 'l) \<Rightarrow> ('l list \<Rightarrow> 'l) \<Rightarrow> bool \<Rightarrow> nat \<Rightarrow> 'b list \<Rightarrow> string list \<Rightarrow> 'p \<Rightarrow>
   sync_mode \<times> 'l list option" where
  "train step mean sync epochs batches hosts p0 =
     (select_mode sync hosts, run_epochs step mean epochs p0 batches)"

section \<open>One call of save_and_upload\<close>

lemma save_and_upload0_put:
  "save_and_upload0 w X y folder i = (put_shard upload_filename0 folder (X, y, i) w, Inr ())"
  by (simp add: save_and_upload0_def put_shard_def shard_effects_def shard_path_def
      shard_file_def nd_save_def s3_upload_file_def Let_def)

lemma save_and_upload1_put:
  "save_and_upload1 w X y folder i = (put_shard upload_filename1 folder (X, y, i) w, Inr ())"
  by (simp add: save_and_upload1_def put_shard_def shard_effects_def shard_path_def
      shard_file_def nd_save_def s3_upload_file_def Let_def)

section \<open>The run of split_and_upload\<close>

lemma for_shards_fold:
  assumes "\<And>w X y i. body w X y folder i = (put_shard keyf folder (X, y, i) w, Inr ())"
  shows "for_shards body w folder ts = (fold (put_shard keyf folder) ts w, Inr ())"
  using assms by (induction ts arbitrary: w) auto

lemma split_idx_zero: "split_idx n 0 = Inl ZeroDivisionError"
  by (simp add: split_idx_def py_floordiv_def)

lemma split_idx_assert: "k \<noteq> 0 \<Longrightarrow> \<not> k dvd n \<Longrightarrow> split_idx n k = Inl AssertionError"
proof -
  assume k: "k \<noteq> 0" and nd: "\<not> k dvd n"
  have "n div k * k \<noteq> n"
  proof
    assume "n div k * k = n"
    then have "k dvd n" by (metis dvd_triv_right)
    with nd show False by simp
  qed
  with k show ?thesis by (simp add: split_idx_def py_floordiv_def)
qed

lemma split_idx_empty: "k \<noteq> 0 \<Longrightarrow> split_idx 0 k = Inl ValueError"
  by (simp add: split_idx_def py_floordiv_def py_range_def)

lemma split_idx_neg:
  assumes "k < 0" "0 < n" "k dvd n"
  shows "split_idx n k = Inr []"
proof -
  define q where "q = n div k"
  have qk: "q * k = n" using assms(3) by (simp add: q_def)
  have q_neg: "q < 0"
    using assms(1,2) qk by (metis mult_neg_neg mult_zero_left not_less_iff_gr_or_eq order_less_asym zero_less_mult_iff)
  have "- q \<le> n"
  proof -
    have "- k \<ge> 1" using assms(1) by simp
    then have "(- q) * 1 \<le> (- q) * (- k)" using q_neg by (intro mult_left_mono) auto
    then show ?thesis using qk by simp
  qed
  then have "0 - (n + 1) - q - 1 < 0" by simp
  then have "(0 - (n + 1) - q - 1) div (- q) < 0"
    using q_neg by (simp add: div_neg_pos_less0)
  then have "nat ((0 - (n + 1) - q - 1) div (- q)) = 0" by simp
  then have "py_range 0 (n + 1) q = Inr []"
    using q_neg by (simp add: py_range_def)
  then show ?thesis
    using assms(1) qk by (simp add: split_idx_def py_floordiv_def q_def)
qed

lemma split_idx_pos:
  assumes "0 < K" "0 < N" "K dvd N"
  shows "split_idx (int N) (int K) = Inr (map (\<lambda>j. int (j * (N div K))) [0..<Suc K])"
proof -
  define S where "S = N div K"
  have N: "N = S * K" using assms(3) by (simp add: S_def)
  have S_pos: "0 < S" using assms(2) N by (cases S) auto
  have q: "int N div int K = int S" by (simp add: S_def zdiv_int)
  have cnt: "(int N + 1 + int S - 1) div int S = int (Suc K)"
  proof -
    have "int N + 1 + int S - 1 = int S * int (Suc K)" by (simp add: N algebra_simps)
    then show ?thesis using S_pos by simp
  qed
  have "py_range 0 (int N + 1) (int S) = Inr (map (\<lambda>j. int (j * S)) [0..<Suc K])"
  proof -
    have "nat (1 + int K) = Suc K" by simp
    then show ?thesis using S_pos cnt by (simp add: py_range_def del: upt_Suc)
  qed
  moreover have "int S * int K = int N" by (simp add: N)
  ultimately have "split_idx (int N) (int K) = Inr (map (\<lambda>j. int (j * S)) [0..<Suc K])"
    using assms(1) q by (simp add: split_idx_def py_floordiv_def del: upt_Suc of_nat_mult)
  then show ?thesis by (simp only: S_def)
qed


lemma py_index_bounds:
  "i < length xs \<Longrightarrow> py_index xs (int i) = Inr (xs ! i)"
  by (simp add: py_index_def)

lemma py_slice_nonneg:
  "py_slice X (int a) (int b) = take (b - a) (drop a X)"
proof -
  have lo: "slice_bound (int (length X)) (int a) = min a (length X)"
    by (simp add: slice_bound_def min_def)
  have hi: "slice_bound (int (length X)) (int b) = min b (length X)"
    by (simp add: slice_bound_def min_def)
  have "take (min b (length X) - min a (length X)) (drop (min a (length X)) X)
        = take (b - a) (drop a X)"
    by (cases "a \<le> length X"; cases "b \<le> length X") (simp_all add: min_def)
  then show ?thesis by (simp add: py_slice_def lo hi)
qed

lemma shard_list_bounds:
  assumes "\<forall>i \<in> set js. i < K"
  shows "shard_list X (map (\<lambda>j. int (j * s)) [0..<Suc K]) (map int js)
         = Inr (map (\<lambda>i. take s (drop (i * s) X)) js)"
  using assms
proof (induction js)
  case Nil
  then show ?case by simp
next
  case (Cons i js)
  let ?idx = "map (\<lambda>j. int (j * s)) [0..<Suc K]"
  have i: "i < K" using Cons.prems by simp
  have len: "length ?idx = Suc K" by (simp del: upt_Suc)
  have nth: "j < Suc K \<Longrightarrow> ?idx ! j = int (j * s)" for j
    by (simp del: upt_Suc of_nat_mult)
  have a: "py_index ?idx (int i) = Inr (int (i * s))"
  proof -
    have "i < length ?idx" unfolding len using i by simp
    then have "py_index ?idx (int i) = Inr (?idx ! i)" by (rule py_index_bounds)
    moreover have "?idx ! i = int (i * s)" by (rule nth) (use i in simp)
    ultimately show ?thesis by (simp only:)
  qed
  have b: "py_index ?idx (int i + 1) = Inr (int (Suc i * s))"
  proof -
    have "Suc i < length ?idx" unfolding len using i by simp
    then have "py_index ?idx (int (Suc i)) = Inr (?idx ! Suc i)" by (rule py_index_bounds)
    moreover have "?idx ! Suc i = int (Suc i * s)" by (rule nth) (use i in simp)
    moreover have "int i + 1 = int (Suc i)" by simp
    ultimately show ?thesis by (simp only:)
  qed
  have sl: "py_slice X (int (i * s)) (int (Suc i * s)) = take s (drop (i * s) X)"
  proof -
    have "Suc i * s - i * s = s" by simp
    then show ?thesis by (simp only: py_slice_nonneg)
  qed
  have rest: "shard_list X ?idx (map int js) = Inr (map (\<lambda>i. take s (drop (i * s) X)) js)"
    using Cons by simp
  show ?case
    by (simp only: list.map shard_list.simps a b rest sl sum.case)
qed

lemma shard_list_slices:
  "shard_list X (map (\<lambda>j. int (j * s)) [0..<Suc (nat k)]) (py_range1 k) = Inr (slices X s (nat k))"
  unfolding py_range1_def slices_def by (rule shard_list_bounds) simp

lemma shard_triples_nonpos: "k \<le> 0 \<Longrightarrow> shard_triples X y k = []"
  by (simp add: shard_triples_def slices_def)

lemma split_and_upload_run:
  assumes body: "\<And>w X y i. body w X y folder i = (put_shard keyf folder (X, y, i) w, Inr ())"
    and def: "\<And>w X y k. run w X y k folder =
      (let n = int (length X) in
       case split_idx n k of
        Inl e \<Rightarrow> (w, Inl e)
      | Inr idx \<Rightarrow>
          (case shard_list X idx (py_range1 k) of
             Inl e \<Rightarrow> (w, Inl e)
           | Inr X_shards \<Rightarrow>
               (case shard_list y idx (py_range1 k) of
                  Inl e \<Rightarrow> (w, Inl e)
                | Inr y_shards \<Rightarrow>
                    for_shards body w folder
                      (zip X_shards (zip y_shards (py_range1 k))))))"
  shows "run w X y k folder =
     (if k = 0 then (w, Inl ZeroDivisionError)
      else if \<not> k dvd int (length X) then (w, Inl AssertionError)
      else if X = [] then (w, Inl ValueError)
      else (fold (put_shard keyf folder) (shard_triples X y k) w, Inr ()))"
proof -
  consider (zero) "k = 0" | (ndvd) "k \<noteq> 0" "\<not> k dvd int (length X)"
    | (empty) "k \<noteq> 0" "k dvd int (length X)" "X = []"
    | (neg) "k < 0" "k dvd int (length X)" "X \<noteq> []"
    | (pos) "0 < k" "k dvd int (length X)" "X \<noteq> []"
    by fastforce
  then show ?thesis
  proof cases
    case zero
    then show ?thesis by (simp add: def split_idx_zero)
  next
    case ndvd
    then show ?thesis by (simp add: def split_idx_assert)
  next
    case empty
    then show ?thesis by (simp add: def split_idx_empty)
  next
    case neg
    then have "split_idx (int (length X)) k = Inr []"
      by (intro split_idx_neg) auto
    moreover have "py_range1 k = []" using neg by (simp add: py_range1_def)
    ultimately show ?thesis
      using neg by (simp add: def shard_triples_nonpos)
  next
    case pos
    define K where "K = nat k"
    define s where "s = length X div K"
    have k: "k = int K" using pos by (simp add: K_def)
    have Kpos: "0 < K" using pos by (simp add: K_def)
    have dv: "K dvd length X" using pos(2) unfolding k by (simp only: int_dvd_int_iff)
    have idx: "split_idx (int (length X)) k = Inr (map (\<lambda>j. int (j * s)) [0..<Suc K])"
      unfolding k s_def using Kpos pos(3) dv by (intro split_idx_pos) auto
    have X: "shard_list X (map (\<lambda>j. int (j * s)) [0..<Suc K]) (py_range1 k) = Inr (slices X s K)"
      unfolding K_def by (rule shard_list_slices)
    have y: "shard_list y (map (\<lambda>j. int (j * s)) [0..<Suc K]) (py_range1 k) = Inr (slices y s K)"
      unfolding K_def by (rule shard_list_slices)
    have tr: "shard_triples X y k = zip (slices X s K) (zip (slices y s K) (py_range1 k))"
      by (simp add: shard_triples_def K_def s_def Let_def)
    show ?thesis
      using pos by (simp add: def idx X y tr for_shards_fold [of body folder keyf, OF body]
          del: upt_Suc of_nat_mult)
  qed
qed

lemma split_and_upload0_run:
  "split_and_upload0 w X y k folder =
     (if k = 0 then (w, Inl ZeroDivisionError)
      else if \<not> k dvd int (length X) then (w, Inl AssertionError)
      else if X = [] then (w, Inl ValueError)
      else (fold (put_shard upload_filename0 folder) (shard_triples X y k) w, Inr ()))"
  by (rule split_and_upload_run [where body = save_and_upload0])
     (simp_all only: save_and_upload0_put split_and_upload0_def)

lemma split_and_upload1_run:
  "split_and_upload1 w X y k folder =
     (if k = 0 then (w, Inl ZeroDivisionError)
      else if \<not> k dvd int (length X) then (w, Inl AssertionError)
      else if X = [] then (w, Inl ValueError)
      else (fold (put_shard upload_filename1 folder) (shard_triples X y k) w, Inr ()))"
  by (rule split_and_upload_run [where body = save_and_upload1])
     (simp_all only: save_and_upload1_put split_and_upload1_def)

section \<open>Decimal digits and the names of the shards\<close>

lemma digit_char_inj:
  assumes "a < 10" "b < 10" "digit_char a = digit_char b"
  shows "a = b"
proof -
  have d: "distinct ''0123456789''" by simp
  have "a < length ''0123456789''" "b < length ''0123456789''" using assms by simp_all
  with d assms(3) show ?thesis unfolding digit_char_def by (simp only: nth_eq_iff_index_eq)
qed

lemma digit_char_in: "d < 10 \<Longrightarrow> digit_char d \<in> set ''0123456789''"
  unfolding digit_char_def by (rule nth_mem) simp

lemma digits_of_small: "n < 10 \<Longrightarrow> digits_of n = [digit_char n]"
  by (simp add: digits_of.simps)

lemma digits_of_large:
  "\<not> n < 10 \<Longrightarrow> digits_of n = digits_of (n div 10) @ [digit_char (n mod 10)]"
  by (subst digits_of.simps) simp

lemma digits_of_nonempty: "digits_of n \<noteq> []"
  by (cases "n < 10") (simp_all add: digits_of_small digits_of_large)

lemma digits_of_chars: "set (digits_of n) \<subseteq> set ''0123456789''"
proof -
  define D where "D = set ''0123456789''"
  have "set (digits_of n) \<subseteq> D"
  proof (induction n rule: digits_of.induct)
    case (1 n)
    show ?case
    proof (cases "n < 10")
      case True
      then have "digit_char n \<in> D" unfolding D_def by (rule digit_char_in)
      then show ?thesis using True by (simp add: digits_of_small)
    next
      case False
      have "n mod 10 < 10" by simp
      then have "digit_char (n mod 10) \<in> D" unfolding D_def by (rule digit_char_in)
      moreover have "set (digits_of (n div 10)) \<subseteq> D" using 1 [OF False] .
      ultimately show ?thesis using False by (simp add: digits_of_large)
    qed
  qed
  then show ?thesis by (simp only: D_def)
qed

lemma digits_of_inj: "digits_of n = digits_of m \<Longrightarrow> n = m"
proof (induction n arbitrary: m rule: digits_of.induct)
  case (1 n)
  show ?case
  proof (cases "n < 10")
    case n: True
    show ?thesis
    proof (cases "m < 10")
      case True
      with n 1(2) show ?thesis by (simp add: digits_of_small digit_char_inj)
    next
      case False
      with n 1(2) digits_of_nonempty [of "m div 10"] show ?thesis
        by (simp add: digits_of_small digits_of_large)
    qed
  next
    case n: False
    show ?thesis
    proof (cases "m < 10")
      case True
      with n 1(2) digits_of_nonempty [of "n div 10"] show ?thesis
        by (simp add: digits_of_small digits_of_large)
    next
      case False
      with n 1(2) have eq: "digits_of (n div 10) = digits_of (m div 10)"
        and c: "digit_char (n mod 10) = digit_char (m mod 10)"
        by (simp_all add: digits_of_large)
      have "n div 10 = m div 10" using 1(1) [OF n eq] .
      moreover have "n mod 10 = m mod 10" using c by (intro digit_char_inj) simp_all
      ultimately show ?thesis by (metis div_mult_mod_eq)
    qed
  qed
qed

lemma shard_path_nat: "shard_path (int i) = ''/tmp/'' @ digits_of i"
proof -
  have "hd (digits_of i) \<in> set (digits_of i)" using digits_of_nonempty by simp
  then have "hd (digits_of i) \<in> set ''0123456789''" using digits_of_chars by blast
  then have "hd (digits_of i) \<noteq> CHR ''/''" by auto
  then show ?thesis
    by (simp add: shard_path_def os_path_join_def local_dir_def format_int_def)
qed

lemma shard_path_inj: "shard_path (int i) = shard_path (int j) \<Longrightarrow> i = j"
  by (simp add: shard_path_nat digits_of_inj)

lemma upload_filename0_inj: "upload_filename0 folder a = upload_filename0 folder b \<Longrightarrow> a = b"
  by (simp add: upload_filename0_def)

lemma upload_filename1_inj: "upload_filename1 folder a = upload_filename1 folder b \<Longrightarrow> a = b"
  by (simp add: upload_filename1_def)

lemma format_int_nat: "format_int (int i) = digits_of i"
  by (simp add: format_int_def)


section \<open>The partition\<close>

lemma shard_triples_map:
  "shard_triples X y k =
     map (\<lambda>i. (take (length X div nat k) (drop (i * (length X div nat k)) X),
               take (length X div nat k) (drop (i * (length X div nat k)) y), int i))
       [0..<nat k]"
  by (simp add: shard_triples_def slices_def py_range1_def Let_def zip_map_map zip_same_conv_map)

lemma concat_slices: "concat (map (\<lambda>i. take s (drop (i * s) X)) [0..<k]) = take (k * s) X"
proof (induction k)
  case 0
  show ?case by simp
next
  case (Suc k)
  have "Suc k * s = k * s + s" by simp
  then have "take (Suc k * s) X = take (k * s) X @ take s (drop (k * s) X)"
    by (simp only: take_add)
  with Suc show ?case by simp
qed

lemma length_slice:
  assumes "i < k" "k * s \<le> length X"
  shows "length (take s (drop (i * s) X)) = s"
proof -
  have "Suc i * s \<le> k * s" using assms(1) by (intro mult_le_mono1) simp
  then have "i * s + s \<le> length X" using assms(2) by simp
  then show ?thesis by simp
qed

lemma nth_slice:
  assumes "r < s"
  shows "take s (drop (i * s) X) ! r = (drop (i * s) X) ! r"
  using assms by simp

lemma slice_ranges_disjoint:
  assumes "i \<noteq> j"
  shows "{i * s..<i * s + s} \<inter> {j * s..<j * s + s} = ({}::nat set)"
proof -
  have *: "{a * s..<a * s + s} \<inter> {b * s..<b * s + s} = ({}::nat set)" if "a < b" for a b :: nat
  proof -
    have "Suc a * s \<le> b * s" using that by (intro mult_le_mono1) simp
    then have "a * s + s \<le> b * s" by simp
    then show ?thesis by auto
  qed
  show ?thesis
  proof (cases "i < j")
    case True
    then show ?thesis by (rule *)
  next
    case False
    with assms have "j < i" by simp
    then have "{j * s..<j * s + s} \<inter> {i * s..<i * s + s} = {}" by (rule *)
    then show ?thesis by blast
  qed
qed

section \<open>The world after the loop\<close>

lemma local_fs_put:
  "local_fs (put_shard keyf folder (Xi, yi, i) w) = (local_fs w)(shard_path i \<mapsto> shard_file Xi yi)"
  by (simp add: put_shard_def)

lemma s3_store_put:
  "s3_store (put_shard keyf folder (Xi, yi, i) w)
     = (s3_store w)((bucket_name, keyf folder (format_int i)) \<mapsto> shard_file Xi yi)"
  by (simp add: put_shard_def)

lemma trace_put:
  "trace (put_shard keyf folder t w) = trace w @ shard_effects keyf folder t"
  by (cases t) (simp add: put_shard_def)

lemma trace_fold_put:
  "trace (fold (put_shard keyf folder) ts w)
     = trace w @ concat (map (shard_effects keyf folder) ts)"
  by (induction ts arbitrary: w) (simp_all add: trace_put)

lemma local_fs_fold_put_other:
  "p \<notin> set (map (\<lambda>t. shard_path (snd (snd t))) ts) \<Longrightarrow>
     local_fs (fold (put_shard keyf folder) ts w) p = local_fs w p"
  by (induction ts arbitrary: w) (auto simp add: local_fs_put)

lemma local_fs_fold_put:
  assumes "distinct (map (\<lambda>t. shard_path (snd (snd t))) ts)" "(Xi, yi, i) \<in> set ts"
  shows "local_fs (fold (put_shard keyf folder) ts w) (shard_path i) = Some (shard_file Xi yi)"
  using assms
proof (induction ts arbitrary: w)
  case Nil
  then show ?case by simp
next
  case (Cons t ts)
  show ?case
  proof (cases "(Xi, yi, i) \<in> set ts")
    case True
    with Cons show ?thesis by simp
  next
    case False
    with Cons.prems have t: "t = (Xi, yi, i)" by simp
    have "shard_path i \<notin> set (map (\<lambda>t. shard_path (snd (snd t))) ts)"
      using Cons.prems(1) t by simp
    then have "local_fs (fold (put_shard keyf folder) ts (put_shard keyf folder t w)) (shard_path i)
               = local_fs (put_shard keyf folder t w) (shard_path i)"
      by (rule local_fs_fold_put_other)
    then show ?thesis by (simp add: t local_fs_put)
  qed
qed

lemma s3_store_fold_put_other:
  "q \<notin> set (map (\<lambda>t. (bucket_name, keyf folder (format_int (snd (snd t))))) ts) \<Longrightarrow>
     s3_store (fold (put_shard keyf folder) ts w) q = s3_store w q"
  by (induction ts arbitrary: w) (auto simp add: s3_store_put)

lemma s3_store_fold_put:
  assumes "distinct (map (\<lambda>t. keyf folder (format_int (snd (snd t)))) ts)" "(Xi, yi, i) \<in> set ts"
  shows "s3_store (fold (put_shard keyf folder) ts w) (bucket_name, keyf folder (format_int i))
           = Some (shard_file Xi yi)"
  using assms
proof (induction ts arbitrary: w)
  case Nil
  then show ?case by simp
next
  case (Cons t ts)
  show ?case
  proof (cases "(Xi, yi, i) \<in> set ts")
    case True
    with Cons show ?thesis by simp
  next
    case False
    with Cons.prems have t: "t = (Xi, yi, i)" by simp
    have "(bucket_name, keyf folder (format_int i))
            \<notin> set (map (\<lambda>t. (bucket_name, keyf folder (format_int (snd (snd t))))) ts)"
      using Cons.prems(1) t by auto
    then have "s3_store (fold (put_shard keyf folder) ts (put_shard keyf folder t w))
                 (bucket_name, keyf folder (format_int i))
               = s3_store (put_shard keyf folder t w) (bucket_name, keyf folder (format_int i))"
      by (rule s3_store_fold_put_other)
    then show ?thesis by (simp add: t s3_store_put)
  qed
qed

lemma distinct_shard_paths:
  "distinct (map (\<lambda>t. shard_path (snd (snd t))) (shard_triples X y k))"
  by (simp add: shard_triples_map distinct_map comp_def inj_on_def shard_path_inj)

lemma distinct_shard_keys:
  assumes "\<And>a b. keyf folder a = keyf folder b \<Longrightarrow> a = b"
  shows "distinct (map (\<lambda>t. keyf folder (format_int (snd (snd t)))) (shard_triples X y k))"
proof -
  have "inj_on (\<lambda>i. keyf folder (digits_of i)) (set [0..<nat k])"
    by (rule inj_onI) (use assms digits_of_inj in blast)
  then show ?thesis
    by (simp add: shard_triples_map distinct_map comp_def format_int_nat)
qed

lemma saved_files_append: "saved_files (es @ fs) = saved_files es @ saved_files fs"
  by (simp add: saved_files_def)

lemma saved_paths_append: "saved_paths (es @ fs) = saved_paths es @ saved_paths fs"
  by (simp add: saved_paths_def)

lemma saved_files_effects:
  "saved_files (concat (map (shard_effects keyf folder) ts))
     = map (\<lambda>t. shard_file (fst t) (fst (snd t))) ts"
  by (induction ts) (auto simp add: saved_files_def shard_effects_def)

lemma saved_paths_effects:
  "saved_paths (concat (map (shard_effects keyf folder) ts))
     = map (\<lambda>t. shard_path (snd (snd t))) ts"
  by (induction ts) (auto simp add: saved_paths_def shard_effects_def)

lemma erase_key_effects:
  "map erase_key (concat (map (shard_effects keyf folder) ts))
     = map erase_key (concat (map (shard_effects keyf' folder) ts))"
  by (induction ts) (auto simp add: shard_effects_def)

lemma local_fs_fold_put_any:
  "local_fs w = local_fs w' \<Longrightarrow>
     local_fs (fold (put_shard keyf folder) ts w) = local_fs (fold (put_shard keyf' folder) ts w')"
proof (induction ts arbitrary: w w')
  case Nil
  then show ?case by simp
next
  case (Cons t ts)
  obtain Xi yi i where t: "t = (Xi, yi, i)" by (cases t)
  have "local_fs (put_shard keyf folder t w) = local_fs (put_shard keyf' folder t w')"
    using Cons.prems by (simp add: t local_fs_put)
  then show ?case using Cons.IH by simp
qed

lemma idx_index:
  assumes "j \<le> K"
  shows "py_index (map (\<lambda>j. int (j * s)) [0..<Suc K]) (int j) = Inr (int (j * s))"
proof -
  let ?idx = "map (\<lambda>j. int (j * s)) [0..<Suc K]"
  have len: "length ?idx = Suc K" by (simp del: upt_Suc)
  have "j < length ?idx" unfolding len using assms by simp
  then have "py_index ?idx (int j) = Inr (?idx ! j)" by (rule py_index_bounds)
  moreover have "?idx ! j = int (j * s)" using assms by (simp del: upt_Suc of_nat_mult)
  ultimately show ?thesis by (simp only:)
qed

lemma run_succeeds_iff0:
  "snd (split_and_upload0 w X y k folder) = Inr () \<longleftrightarrow> k \<noteq> 0 \<and> k dvd int (length X) \<and> X \<noteq> []"
  by (simp add: split_and_upload0_run)

lemma run_succeeds_iff1:
  "snd (split_and_upload1 w X y k folder) = Inr () \<longleftrightarrow> k \<noteq> 0 \<and> k dvd int (length X) \<and> X \<noteq> []"
  by (simp add: split_and_upload1_run)

lemma run_world0:
  "snd (split_and_upload0 w X y k folder) = Inr () \<Longrightarrow>
     fst (split_and_upload0 w X y k folder)
       = fold (put_shard upload_filename0 folder) (shard_triples X y k) w"
  by (simp add: split_and_upload0_run split: if_splits)

lemma run_world1:
  "snd (split_and_upload1 w X y k folder) = Inr () \<Longrightarrow>
     fst (split_and_upload1 w X y k folder)
       = fold (put_shard upload_filename1 folder) (shard_triples X y k) w"
  by (simp add: split_and_upload1_run split: if_splits)

lemma shard_triples_effects:
  "concat (map (shard_effects keyf folder) (shard_triples X y k))
     = concat (map (\<lambda>i.
         [Save (shard_path (int i))
            (shard_file (take (length X div nat k) (drop (i * (length X div nat k)) X))
                        (take (length X div nat k) (drop (i * (length X div nat k)) y))),
          Upload (shard_path (int i)) bucket_name (keyf folder (format_int (int i)))])
       [0..<nat k])"
  by (simp add: shard_triples_map shard_effects_def comp_def)

lemma shard_triples_files:
  "map (\<lambda>t. shard_file (fst t) (fst (snd t))) (shard_triples X y k)
     = map (\<lambda>i. shard_file (take (length X div nat k) (drop (i * (length X div nat k)) X))
                           (take (length X div nat k) (drop (i * (length X div nat k)) y)))
         [0..<nat k]"
  by (simp add: shard_triples_map comp_def)

lemma shard_triples_paths:
  "map (\<lambda>t. shard_path (snd (snd t))) (shard_triples X y k) = map (\<lambda>i. shard_path (int i)) [0..<nat k]"
  by (simp add: shard_triples_map comp_def)

lemma shard_triples_mem:
  "i < nat k \<Longrightarrow>
     (take (length X div nat k) (drop (i * (length X div nat k)) X),
      take (length X div nat k) (drop (i * (length X div nat k)) y), int i) \<in> set (shard_triples X y k)"
  by (simp add: shard_triples_map image_iff)

lemma fold_put_files:
  "saved_files (trace (fold (put_shard keyf folder) (shard_triples X y k) w))
     = saved_files (trace w) @
       map (\<lambda>i. shard_file (take (length X div nat k) (drop (i * (length X div nat k)) X))
                           (take (length X div nat k) (drop (i * (length X div nat k)) y)))
         [0..<nat k]"
  by (simp only: trace_fold_put saved_files_append saved_files_effects shard_triples_files)

lemma fold_put_paths:
  "saved_paths (trace (fold (put_shard keyf folder) (shard_triples X y k) w))
     = saved_paths (trace w) @ map (\<lambda>i. shard_path (int i)) [0..<nat k]"
  by (simp only: trace_fold_put saved_paths_append saved_paths_effects shard_triples_paths)

lemma fold_put_local:
  assumes "i < nat k"
  shows "local_fs (fold (put_shard keyf folder) (shard_triples X y k) w) (shard_path (int i))
     = Some (shard_file (take (length X div nat k) (drop (i * (length X div nat k)) X))
                        (take (length X div nat k) (drop (i * (length X div nat k)) y)))"
proof -
  have d: "distinct (map (\<lambda>t. shard_path (snd (snd t))) (shard_triples X y k))"
    by (rule distinct_shard_paths)
  have m: "(take (length X div nat k) (drop (i * (length X div nat k)) X),
      take (length X div nat k) (drop (i * (length X div nat k)) y), int i) \<in> set (shard_triples X y k)"
    using assms by (rule shard_triples_mem)
  show ?thesis using d m by (rule local_fs_fold_put)
qed

lemma fold_put_store:
  assumes "i < nat k" and "\<And>a b. keyf folder a = keyf folder b \<Longrightarrow> a = b"
  shows "s3_store (fold (put_shard keyf folder) (shard_triples X y k) w)
           (bucket_name, keyf folder (format_int (int i)))
     = Some (shard_file (take (length X div nat k) (drop (i * (length X div nat k)) X))
                        (take (length X div nat k) (drop (i * (length X div nat k)) y)))"
proof -
  have d: "distinct (map (\<lambda>t. keyf folder (format_int (snd (snd t)))) (shard_triples X y k))"
    using assms(2) by (rule distinct_shard_keys)
  have m: "(take (length X div nat k) (drop (i * (length X div nat k)) X),
      take (length X div nat k) (drop (i * (length X div nat k)) y), int i) \<in> set (shard_triples X y k)"
    using assms(1) by (rule shard_triples_mem)
  show ?thesis using d m by (rule s3_store_fold_put)
qed

lemma shard_size:
  assumes "1 \<le> k" "k dvd int (length X)"
  shows "nat k * (length X div nat k) = length X"
proof -
  have "int (nat k) dvd int (length X)" using assms by simp
  then have "nat k dvd length X" by (simp only: int_dvd_int_iff)
  then show ?thesis by simp
qed

section \<open>Helper facts for the claims\<close>

lemma format_int_1: "format_int 1 = ''1''"
  by (simp add: format_int_def digits_of.simps digit_char_def)

lemma upt_2: "[0..<nat 2] = [0, 1]"
  by (simp add: numeral_2_eq_2)

lemma format_int_0: "format_int 0 = ''0''"
  by (simp add: format_int_def digits_of.simps digit_char_def)

lemma upload_filename1_layout:
  "upload_filename1 folder (format_int i)
     = ''distributed_training_gluon_lab'' @ ''/'' @ folder @ ''/'' @ format_int i"
  by (simp add: upload_filename1_def prefix_def)

lemma run_epoch_length: "length (snd (run_epoch step p bs)) = length bs"
proof (induction bs arbitrary: p)
  case Nil
  show ?case by simp
next
  case (Cons b bs)
  obtain p' l where s: "step p b = (p', l)" by (cases "step p b")
  obtain p'' ls where r: "run_epoch step p' bs = (p'', ls)" by (cases "run_epoch step p' bs")
  have "length ls = length bs" using Cons.IH [of p'] r by simp
  then show ?case using s r by simp
qed

lemma run_epochs_length:
  assumes "bs \<noteq> []"
  shows "\<exists>ls. run_epochs step mean N p bs = Some ls \<and> length ls = N"
proof (induction N arbitrary: p)
  case 0
  show ?case by simp
next
  case (Suc N)
  obtain p' ls where e: "run_epoch step p bs = (p', ls)" by (cases "run_epoch step p bs")
  have "length ls = length bs" using run_epoch_length [of step p bs] e by simp
  then have ne: "ls \<noteq> []" using assms by auto
  obtain rest where "run_epochs step mean N p' bs = Some rest" "length rest = N"
    using Suc.IH by blast
  then show ?case using e ne by simp
qed

section \<open>The claims\<close>

text \<open>
  C2, as amended. When \<open>k\<close> does not divide \<open>len(X)\<close>, \<open>split_and_upload\<close> (either
  notebook) raises and leaves the world as it was: no local file is written and nothing
  is uploaded. The exception is the assertion failure for every \<open>k\<close> other than zero;
  for \<open>k = 0\<close> it is the \<open>ZeroDivisionError\<close> of \<open>n//k\<close>, raised while the
  assertion is being evaluated.
\<close>

theorem split_and_upload_indivisible:
  assumes "\<not> k dvd int (length X)"
  shows "split_and_upload0 w X y k folder
           = (w, Inl (if k = 0 then ZeroDivisionError else AssertionError))
       \<and> split_and_upload1 w X y k folder
           = (w, Inl (if k = 0 then ZeroDivisionError else AssertionError))"
  using assms by (simp add: split_and_upload0_run split_and_upload1_run)

theorem split_and_upload_indivisible_witness:
  "\<not> (2::int) dvd int (length [1, 2, 3 :: nat])
   \<and> split_and_upload0 empty_world [1, 2, 3 :: nat] [4, 5, 6] 2 ''train''
       = (empty_world, Inl AssertionError)
   \<and> split_and_upload1 empty_world [1, 2, 3 :: nat] [4, 5, 6] 2 ''train''
       = (empty_world, Inl AssertionError)"
proof -
  have h: "\<not> (2::int) dvd int (length [1, 2, 3 :: nat])" by simp
  show ?thesis
    using h split_and_upload_indivisible [OF h, of empty_world "[4, 5, 6]" "''train''"] by simp
qed

text \<open>
  C2 as stated fails at \<open>k = 0\<close> on a dataset of one row: zero does not divide one, and
  the exception is not an assertion failure.
\<close>

theorem split_and_upload_zero_shards:
  "\<not> (0::int) dvd int (length [1 :: nat])
   \<and> split_and_upload0 empty_world [1 :: nat] [2] 0 ''train'' = (empty_world, Inl ZeroDivisionError)
   \<and> split_and_upload1 empty_world [1 :: nat] [2] 0 ''train'' = (empty_world, Inl ZeroDivisionError)"
  by (simp add: split_and_upload0_def split_and_upload1_def split_idx_def py_floordiv_def)

text \<open>
  C3. The claim asks for the key \<open><prefix>/<folder>/<shard-index>\<close> with single
  separators. The second notebook builds it (lemma \<open>upload_filename1_layout\<close>). The first
  notebook does not: its prefix already ends with a slash and its format adds another, so
  shard 0 of folder \<open>train\<close> goes to \<open>distributed_training_gluon_lab//train/0\<close>, and the
  key with single separators holds nothing.
\<close>

theorem save_and_upload0_double_separator:
  "trace (fst (save_and_upload0 empty_world [1 :: nat] [2] ''train'' 0))
     = [Save ''/tmp/0'' [(''X'', [1]), (''y'', [2])],
        Upload ''/tmp/0'' ''eduthie-sagemaker-1'' ''distributed_training_gluon_lab//train/0'']
   \<and> s3_store (fst (save_and_upload0 empty_world [1 :: nat] [2] ''train'' 0))
        (''eduthie-sagemaker-1'', ''distributed_training_gluon_lab/train/0'') = None"
  by (simp add: save_and_upload0_def upload_filename0_def prefix_def local_dir_def
      bucket_name_def os_path_join_def format_int_0 nd_save_def s3_upload_file_def
      empty_world_def Let_def)

text \<open>
  C4. With more than one host, \<open>train\<close> selects a distributed synchronization mode;
  with exactly one host, and so for \<open>hosts = ['alg-1']\<close>, it selects the local mode.
\<close>

theorem train_selects_mode:
  "(length hosts > 1 \<longrightarrow> is_distributed (fst (train step mean sync epochs batches hosts p0)))
   \<and> (length hosts = 1 \<longrightarrow> fst (train step mean sync epochs batches hosts p0) = Local)
   \<and> fst (train step mean sync epochs batches [''alg-1''] p0) = Local"
  by (simp add: train_def select_mode_def)

theorem train_selects_mode_witness:
  "is_distributed (fst (train (\<lambda>p b. (p + b, b)) sum_list True 10 [1, 2 :: nat] [''alg-1'', ''alg-2''] (0::nat)))
   \<and> fst (train (\<lambda>p b. (p + b, b)) sum_list True 10 [1, 2 :: nat] [''alg-1''] (0::nat)) = Local"
  using train_selects_mode [of "[''alg-1'', ''alg-2'']" "\<lambda>p b. (p + b, b)" sum_list True 10 "[1, 2 :: nat]" "0::nat"]
    train_selects_mode [of "[''alg-1'']" "\<lambda>p b. (p + b, b)" sum_list True 10 "[1, 2 :: nat]" "0::nat"]
  by simp

text \<open>
  C5. With \<open>epochs = N\<close> and at least one batch, \<open>train\<close> reports exactly \<open>N\<close> loss
  values, whatever the number of batches.
\<close>

theorem train_reports_one_loss_per_epoch:
  assumes "batches \<noteq> []"
  shows "\<exists>ls. snd (train step mean sync N batches hosts p0) = Some ls \<and> length ls = N"
  using run_epochs_length [OF assms] by (simp add: train_def)

theorem train_reports_one_loss_per_epoch_witness:
  "[1, 2 :: nat] \<noteq> []
   \<and> (\<exists>ls. snd (train (\<lambda>p b. (p + b, b)) sum_list True 3 [1, 2 :: nat] [''alg-1''] (0::nat)) = Some ls
        \<and> length ls = 3)"
proof -
  have h: "[1, 2 :: nat] \<noteq> []" by simp
  show ?thesis
    using h train_reports_one_loss_per_epoch [OF h, of "\<lambda>p b. (p + b, b)" sum_list True 3 "[''alg-1'']" "0::nat"]
    by simp
qed

text \<open>
  C7. One call of \<open>save_and_upload\<close> (either notebook) writes, at the local path of
  the shard, the dictionary with the two entries \<open>X\<close> and \<open>y\<close> and nothing else, and
  uploads that file to the key of the shard; the rest of the world is as before.
\<close>

theorem save_and_upload_artifact:
  "fst (save_and_upload0 w X y folder i)
     = w\<lparr>local_fs := (local_fs w)(os_path_join local_dir (format_int i) \<mapsto> [(''X'', X), (''y'', y)]),
         s3_store := (s3_store w)((bucket_name, upload_filename0 folder (format_int i))
                        \<mapsto> [(''X'', X), (''y'', y)]),
         trace := trace w @
           [Save (os_path_join local_dir (format_int i)) [(''X'', X), (''y'', y)],
            Upload (os_path_join local_dir (format_int i)) bucket_name
              (upload_filename0 folder (format_int i))]\<rparr>
   \<and> fst (save_and_upload1 w X y folder i)
     = w\<lparr>local_fs := (local_fs w)(os_path_join local_dir (format_int i) \<mapsto> [(''X'', X), (''y'', y)]),
         s3_store := (s3_store w)((bucket_name, upload_filename1 folder (format_int i))
                        \<mapsto> [(''X'', X), (''y'', y)]),
         trace := trace w @
           [Save (os_path_join local_dir (format_int i)) [(''X'', X), (''y'', y)],
            Upload (os_path_join local_dir (format_int i)) bucket_name
              (upload_filename1 folder (format_int i))]\<rparr>"
  by (simp add: save_and_upload0_put save_and_upload1_put put_shard_def shard_effects_def
      shard_path_def shard_file_def)

text \<open>
  C8. In every successful run of \<open>split_and_upload\<close> (either notebook) the effects added
  to the trace are, for \<open>i = 0, ..., k - 1\<close> in this order, the local write of shard
  \<open>i\<close> followed by the upload of shard \<open>i\<close>: the write of a shard precedes its upload,
  which precedes the write of the next shard, and the uploads are in the order of the
  shard indices.
\<close>

theorem split_and_upload_effect_order:
  "(snd (split_and_upload0 w X y k folder) = Inr () \<longrightarrow>
      trace (fst (split_and_upload0 w X y k folder))
        = trace w @ concat (map (\<lambda>i.
            [Save (shard_path (int i))
               (shard_file (take (length X div nat k) (drop (i * (length X div nat k)) X))
                           (take (length X div nat k) (drop (i * (length X div nat k)) y))),
             Upload (shard_path (int i)) bucket_name (upload_filename0 folder (format_int (int i)))])
          [0..<nat k]))
   \<and> (snd (split_and_upload1 w X y k folder) = Inr () \<longrightarrow>
      trace (fst (split_and_upload1 w X y k folder))
        = trace w @ concat (map (\<lambda>i.
            [Save (shard_path (int i))
               (shard_file (take (length X div nat k) (drop (i * (length X div nat k)) X))
                           (take (length X div nat k) (drop (i * (length X div nat k)) y))),
             Upload (shard_path (int i)) bucket_name (upload_filename1 folder (format_int (int i)))])
          [0..<nat k]))"
proof (intro conjI impI)
  assume "snd (split_and_upload0 w X y k folder) = Inr ()"
  then show "trace (fst (split_and_upload0 w X y k folder))
        = trace w @ concat (map (\<lambda>i.
            [Save (shard_path (int i))
               (shard_file (take (length X div nat k) (drop (i * (length X div nat k)) X))
                           (take (length X div nat k) (drop (i * (length X div nat k)) y))),
             Upload (shard_path (int i)) bucket_name (upload_filename0 folder (format_int (int i)))])
          [0..<nat k])"
    by (simp only: run_world0 trace_fold_put shard_triples_effects)
next
  assume "snd (split_and_upload1 w X y k folder) = Inr ()"
  then show "trace (fst (split_and_upload1 w X y k folder))
        = trace w @ concat (map (\<lambda>i.
            [Save (shard_path (int i))
               (shard_file (take (length X div nat k) (drop (i * (length X div nat k)) X))
                           (take (length X div nat k) (drop (i * (length X div nat k)) y))),
             Upload (shard_path (int i)) bucket_name (upload_filename1 folder (format_int (int i)))])
          [0..<nat k])"
    by (simp only: run_world1 trace_fold_put shard_triples_effects)
qed

theorem split_and_upload_effect_order_witness:
  "snd (split_and_upload0 empty_world [1, 2, 3, 4 :: nat] [5, 6, 7, 8] 2 ''train'') = Inr ()
   \<and> snd (split_and_upload1 empty_world [1, 2, 3, 4 :: nat] [5, 6, 7, 8] 2 ''train'') = Inr ()
   \<and> trace (fst (split_and_upload0 empty_world [1, 2, 3, 4 :: nat] [5, 6, 7, 8] 2 ''train''))
       = [Save ''/tmp/0'' [(''X'', [1, 2]), (''y'', [5, 6])],
          Upload ''/tmp/0'' ''eduthie-sagemaker-1'' ''distributed_training_gluon_lab//train/0'',
          Save ''/tmp/1'' [(''X'', [3, 4]), (''y'', [7, 8])],
          Upload ''/tmp/1'' ''eduthie-sagemaker-1'' ''distributed_training_gluon_lab//train/1'']
   \<and> trace (fst (split_and_upload1 empty_world [1, 2, 3, 4 :: nat] [5, 6, 7, 8] 2 ''train''))
       = [Save ''/tmp/0'' [(''X'', [1, 2]), (''y'', [5, 6])],
          Upload ''/tmp/0'' ''eduthie-sagemaker-1'' ''distributed_training_gluon_lab/train/0'',
          Save ''/tmp/1'' [(''X'', [3, 4]), (''y'', [7, 8])],
          Upload ''/tmp/1'' ''eduthie-sagemaker-1'' ''distributed_training_gluon_lab/train/1'']"
proof -
  have h0: "snd (split_and_upload0 empty_world [1, 2, 3, 4 :: nat] [5, 6, 7, 8] 2 ''train'') = Inr ()"
    by (simp add: run_succeeds_iff0)
  have h1: "snd (split_and_upload1 empty_world [1, 2, 3, 4 :: nat] [5, 6, 7, 8] 2 ''train'') = Inr ()"
    by (simp add: run_succeeds_iff1)
  note t = split_and_upload_effect_order
      [of empty_world "[1, 2, 3, 4 :: nat]" "[5, 6, 7, 8]" 2 "''train''"]
  have t0: "trace (fst (split_and_upload0 empty_world [1, 2, 3, 4 :: nat] [5, 6, 7, 8] 2 ''train''))
       = [Save ''/tmp/0'' [(''X'', [1, 2]), (''y'', [5, 6])],
          Upload ''/tmp/0'' ''eduthie-sagemaker-1'' ''distributed_training_gluon_lab//train/0'',
          Save ''/tmp/1'' [(''X'', [3, 4]), (''y'', [7, 8])],
          Upload ''/tmp/1'' ''eduthie-sagemaker-1'' ''distributed_training_gluon_lab//train/1'']"
    using t h0
    by (simp only: upt_2)
       (simp add: shard_path_def shard_file_def os_path_join_def local_dir_def
        bucket_name_def upload_filename0_def prefix_def format_int_0 format_int_1
        empty_world_def)
  have t1: "trace (fst (split_and_upload1 empty_world [1, 2, 3, 4 :: nat] [5, 6, 7, 8] 2 ''train''))
       = [Save ''/tmp/0'' [(''X'', [1, 2]), (''y'', [5, 6])],
          Upload ''/tmp/0'' ''eduthie-sagemaker-1'' ''distributed_training_gluon_lab/train/0'',
          Save ''/tmp/1'' [(''X'', [3, 4]), (''y'', [7, 8])],
          Upload ''/tmp/1'' ''eduthie-sagemaker-1'' ''distributed_training_gluon_lab/train/1'']"
    using t h1
    by (simp only: upt_2)
       (simp add: shard_path_def shard_file_def os_path_join_def local_dir_def
        bucket_name_def upload_filename1_def prefix_def format_int_0 format_int_1
        empty_world_def)
  show ?thesis using h0 h1 t0 t1 by (simp only: simp_thms)
qed

text \<open>
  C1, as amended. For a non-empty \<open>X\<close>, a \<open>y\<close> of the same length and \<open>k \<ge> 1\<close>
  dividing \<open>len(X)\<close>, \<open>split_and_upload\<close> (either notebook) succeeds and emits exactly
  \<open>k\<close> shards: it writes, in the order of the shard indices, the files of the slices
  \<open>i * s ..< i * s + s\<close> of \<open>X\<close> and \<open>y\<close>, where \<open>s = len(X) / k\<close>, and stores shard
  \<open>i\<close> under the key of \<open>i\<close>. Every slice has \<open>s\<close> rows, which are the rows of the
  original at these positions; the index ranges of two shards are disjoint; the slices
  concatenated in index order are \<open>X\<close> and \<open>y\<close>. For \<open>len(X) = 900000\<close> and
  \<open>k = 5\<close> the size is 180000.
\<close>

theorem split_and_upload_partition:
  assumes "length y = length X" and "1 \<le> k" and "k dvd int (length X)" and "X \<noteq> []"
  shows "snd (split_and_upload0 w X y k folder) = Inr ()
       \<and> snd (split_and_upload1 w X y k folder) = Inr ()
       \<and> saved_files (trace (fst (split_and_upload0 w X y k folder)))
           = saved_files (trace w) @
             map (\<lambda>i. shard_file (take (length X div nat k) (drop (i * (length X div nat k)) X))
                                 (take (length X div nat k) (drop (i * (length X div nat k)) y)))
               [0..<nat k]
       \<and> saved_files (trace (fst (split_and_upload1 w X y k folder)))
           = saved_files (trace w) @
             map (\<lambda>i. shard_file (take (length X div nat k) (drop (i * (length X div nat k)) X))
                                 (take (length X div nat k) (drop (i * (length X div nat k)) y)))
               [0..<nat k]
       \<and> (\<forall>i<nat k.
             s3_store (fst (split_and_upload0 w X y k folder))
               (bucket_name, upload_filename0 folder (format_int (int i)))
               = Some (shard_file (take (length X div nat k) (drop (i * (length X div nat k)) X))
                                  (take (length X div nat k) (drop (i * (length X div nat k)) y)))
           \<and> s3_store (fst (split_and_upload1 w X y k folder))
               (bucket_name, upload_filename1 folder (format_int (int i)))
               = Some (shard_file (take (length X div nat k) (drop (i * (length X div nat k)) X))
                                  (take (length X div nat k) (drop (i * (length X div nat k)) y))))
       \<and> (\<forall>i<nat k.
             length (take (length X div nat k) (drop (i * (length X div nat k)) X))
               = length X div nat k
           \<and> length (take (length X div nat k) (drop (i * (length X div nat k)) y))
               = length X div nat k
           \<and> (\<forall>r<length X div nat k.
                 take (length X div nat k) (drop (i * (length X div nat k)) X) ! r
                   = X ! (i * (length X div nat k) + r)
               \<and> take (length X div nat k) (drop (i * (length X div nat k)) y) ! r
                   = y ! (i * (length X div nat k) + r)))
       \<and> (\<forall>i<nat k. \<forall>j<nat k. i \<noteq> j \<longrightarrow>
             {i * (length X div nat k)..<i * (length X div nat k) + length X div nat k}
               \<inter> {j * (length X div nat k)..<j * (length X div nat k) + length X div nat k} = {})
       \<and> concat (map (\<lambda>i. take (length X div nat k) (drop (i * (length X div nat k)) X)) [0..<nat k]) = X
       \<and> concat (map (\<lambda>i. take (length X div nat k) (drop (i * (length X div nat k)) y)) [0..<nat k]) = y
       \<and> (length X = 900000 \<and> k = 5 \<longrightarrow> length X div nat k = 180000)"
proof -
  define K where "K = nat k"
  define s where "s = length X div K"
  have Ks: "K * s = length X" unfolding K_def s_def using assms(2,3) by (rule shard_size)
  have ok0: "snd (split_and_upload0 w X y k folder) = Inr ()"
    using assms by (simp add: run_succeeds_iff0)
  have ok1: "snd (split_and_upload1 w X y k folder) = Inr ()"
    using assms by (simp add: run_succeeds_iff1)
  have f0: "saved_files (trace (fst (split_and_upload0 w X y k folder)))
           = saved_files (trace w) @
             map (\<lambda>i. shard_file (take s (drop (i * s) X)) (take s (drop (i * s) y))) [0..<K]"
    unfolding s_def K_def by (simp only: run_world0 [OF ok0] fold_put_files)
  have f1: "saved_files (trace (fst (split_and_upload1 w X y k folder)))
           = saved_files (trace w) @
             map (\<lambda>i. shard_file (take s (drop (i * s) X)) (take s (drop (i * s) y))) [0..<K]"
    unfolding s_def K_def by (simp only: run_world1 [OF ok1] fold_put_files)
  have st: "\<forall>i<K.
             s3_store (fst (split_and_upload0 w X y k folder))
               (bucket_name, upload_filename0 folder (format_int (int i)))
               = Some (shard_file (take s (drop (i * s) X)) (take s (drop (i * s) y)))
           \<and> s3_store (fst (split_and_upload1 w X y k folder))
               (bucket_name, upload_filename1 folder (format_int (int i)))
               = Some (shard_file (take s (drop (i * s) X)) (take s (drop (i * s) y)))"
  proof (intro allI impI conjI)
    fix i assume i: "i < K"
    show "s3_store (fst (split_and_upload0 w X y k folder))
               (bucket_name, upload_filename0 folder (format_int (int i)))
               = Some (shard_file (take s (drop (i * s) X)) (take s (drop (i * s) y)))"
      unfolding s_def K_def run_world0 [OF ok0]
      by (rule fold_put_store) (use i K_def upload_filename0_inj in auto)
    show "s3_store (fst (split_and_upload1 w X y k folder))
               (bucket_name, upload_filename1 folder (format_int (int i)))
               = Some (shard_file (take s (drop (i * s) X)) (take s (drop (i * s) y)))"
      unfolding s_def K_def run_world1 [OF ok1]
      by (rule fold_put_store) (use i K_def upload_filename1_inj in auto)
  qed
  have sl: "\<forall>i<K. length (take s (drop (i * s) X)) = s
           \<and> length (take s (drop (i * s) y)) = s
           \<and> (\<forall>r<s. take s (drop (i * s) X) ! r = X ! (i * s + r)
                    \<and> take s (drop (i * s) y) ! r = y ! (i * s + r))"
  proof (intro allI impI conjI)
    fix i assume i: "i < K"
    show lx: "length (take s (drop (i * s) X)) = s" using i Ks by (intro length_slice) auto
    show ly: "length (take s (drop (i * s) y)) = s"
      using i Ks assms(1) by (intro length_slice) auto
    fix r assume r: "r < s"
    have "Suc i * s \<le> K * s" using i by (intro mult_le_mono1) simp
    then have b: "i * s + r < length X" using r Ks by simp
    show "take s (drop (i * s) X) ! r = X ! (i * s + r)" using r b by simp
    show "take s (drop (i * s) y) ! r = y ! (i * s + r)" using r b assms(1) by simp
  qed
  have dj: "\<forall>i<K. \<forall>j<K. i \<noteq> j \<longrightarrow> {i * s..<i * s + s} \<inter> {j * s..<j * s + s} = {}"
    using slice_ranges_disjoint by blast
  have cx: "concat (map (\<lambda>i. take s (drop (i * s) X)) [0..<K]) = X"
    by (simp add: concat_slices Ks)
  have cy: "concat (map (\<lambda>i. take s (drop (i * s) y)) [0..<K]) = y"
    by (simp add: concat_slices Ks assms(1))
  have ex: "length X = 900000 \<and> k = 5 \<longrightarrow> s = 180000"
    by (simp add: s_def K_def)
  show ?thesis
    using ok0 ok1 f0 f1 st sl dj cx cy ex unfolding s_def K_def by (intro conjI)
qed

theorem split_and_upload_partition_witness:
  "length [5, 6, 7, 8 :: nat] = length [1, 2, 3, 4 :: nat] \<and> (1::int) \<le> 2
   \<and> (2::int) dvd int (length [1, 2, 3, 4 :: nat]) \<and> [1, 2, 3, 4 :: nat] \<noteq> []
   \<and> saved_files (trace (fst (split_and_upload1 empty_world [1, 2, 3, 4 :: nat] [5, 6, 7, 8] 2 ''train'')))
       = [[(''X'', [1, 2]), (''y'', [5, 6])], [(''X'', [3, 4]), (''y'', [7, 8])]]"
proof -
  have h1: "length [5, 6, 7, 8 :: nat] = length [1, 2, 3, 4 :: nat]" by simp
  have h2: "(1::int) \<le> 2" by simp
  have h3: "(2::int) dvd int (length [1, 2, 3, 4 :: nat])" by simp
  have h4: "[1, 2, 3, 4 :: nat] \<noteq> []" by simp
  note t = split_and_upload_partition [OF h1 h2 h3 h4, of empty_world "''train''"]
  then have "saved_files (trace (fst (split_and_upload1 empty_world [1, 2, 3, 4 :: nat] [5, 6, 7, 8] 2 ''train'')))
           = saved_files (trace (empty_world :: nat world)) @
             map (\<lambda>i. shard_file (take (length [1, 2, 3, 4 :: nat] div nat 2) (drop (i * (length [1, 2, 3, 4 :: nat] div nat 2)) [1, 2, 3, 4 :: nat]))
                                 (take (length [1, 2, 3, 4 :: nat] div nat 2) (drop (i * (length [1, 2, 3, 4 :: nat] div nat 2)) [5, 6, 7, 8])))
               [0..<nat 2]"
    by blast
  then have a: "saved_files (trace (fst (split_and_upload1 empty_world [1, 2, 3, 4 :: nat] [5, 6, 7, 8] 2 ''train'')))
       = [[(''X'', [1, 2]), (''y'', [5, 6])], [(''X'', [3, 4]), (''y'', [7, 8])]]"
    by (simp only: upt_2) (simp add: shard_file_def saved_files_def empty_world_def)
  show ?thesis using h1 h2 h3 h4 a by (simp only: simp_thms)
qed

text \<open>
  C1 as stated fails on the empty dataset: \<open>k = 1\<close> divides its length, the assertion
  passes, and \<open>range(0, 1, 0)\<close> raises \<open>ValueError\<close>; no shard is emitted.
\<close>

theorem split_and_upload_empty_dataset:
  "length ([] :: nat list) = length ([] :: nat list) \<and> (1::int) \<le> 1
   \<and> (1::int) dvd int (length ([] :: nat list))
   \<and> split_and_upload0 empty_world ([] :: nat list) [] 1 ''train'' = (empty_world, Inl ValueError)
   \<and> split_and_upload1 empty_world ([] :: nat list) [] 1 ''train'' = (empty_world, Inl ValueError)"
  by (simp add: split_and_upload0_def split_and_upload1_def split_idx_def py_floordiv_def
      py_range_def)

text \<open>
  C6, as amended. In a successful run of \<open>split_and_upload\<close> (either notebook) shard
  \<open>i\<close> is written to the local file \<open>/tmp/<i>\<close>. These \<open>k\<close> paths are pairwise
  distinct, so no write of the call overwrites the file of another shard of the call: at
  the end the file of every shard is still there.
\<close>

theorem split_and_upload_local_paths:
  "(snd (split_and_upload0 w X y k folder) = Inr () \<longrightarrow>
      saved_paths (trace (fst (split_and_upload0 w X y k folder)))
        = saved_paths (trace w) @ map (\<lambda>i. ''/tmp/'' @ format_int (int i)) [0..<nat k]
      \<and> (\<forall>i<nat k.
            local_fs (fst (split_and_upload0 w X y k folder)) (''/tmp/'' @ format_int (int i))
              = Some (shard_file (take (length X div nat k) (drop (i * (length X div nat k)) X))
                                 (take (length X div nat k) (drop (i * (length X div nat k)) y)))))
   \<and> (snd (split_and_upload1 w X y k folder) = Inr () \<longrightarrow>
      saved_paths (trace (fst (split_and_upload1 w X y k folder)))
        = saved_paths (trace w) @ map (\<lambda>i. ''/tmp/'' @ format_int (int i)) [0..<nat k]
      \<and> (\<forall>i<nat k.
            local_fs (fst (split_and_upload1 w X y k folder)) (''/tmp/'' @ format_int (int i))
              = Some (shard_file (take (length X div nat k) (drop (i * (length X div nat k)) X))
                                 (take (length X div nat k) (drop (i * (length X div nat k)) y)))))
   \<and> distinct (map (\<lambda>i. ''/tmp/'' @ format_int (int i)) [0..<nat k])"
proof -
  have p: "''/tmp/'' @ format_int (int i) = shard_path (int i)" for i
    by (simp only: shard_path_nat format_int_nat)
  have d: "distinct (map (\<lambda>i. shard_path (int i)) [0..<nat k])"
    by (simp add: distinct_map inj_on_def shard_path_inj)
  show ?thesis
    unfolding p
  proof (intro conjI impI allI)
    assume ok: "snd (split_and_upload0 w X y k folder) = Inr ()"
    show "saved_paths (trace (fst (split_and_upload0 w X y k folder)))
        = saved_paths (trace w) @ map (\<lambda>i. shard_path (int i)) [0..<nat k]"
      by (simp only: run_world0 [OF ok] fold_put_paths)
    fix i assume "i < nat k"
    then show "local_fs (fst (split_and_upload0 w X y k folder)) (shard_path (int i))
              = Some (shard_file (take (length X div nat k) (drop (i * (length X div nat k)) X))
                                 (take (length X div nat k) (drop (i * (length X div nat k)) y)))"
      unfolding run_world0 [OF ok] by (rule fold_put_local)
  next
    assume ok: "snd (split_and_upload1 w X y k folder) = Inr ()"
    show "saved_paths (trace (fst (split_and_upload1 w X y k folder)))
        = saved_paths (trace w) @ map (\<lambda>i. shard_path (int i)) [0..<nat k]"
      by (simp only: run_world1 [OF ok] fold_put_paths)
    fix i assume "i < nat k"
    then show "local_fs (fst (split_and_upload1 w X y k folder)) (shard_path (int i))
              = Some (shard_file (take (length X div nat k) (drop (i * (length X div nat k)) X))
                                 (take (length X div nat k) (drop (i * (length X div nat k)) y)))"
      unfolding run_world1 [OF ok] by (rule fold_put_local)
  next
    show "distinct (map (\<lambda>i. shard_path (int i)) [0..<nat k])" by (rule d)
  qed
qed

theorem split_and_upload_local_paths_witness:
  "snd (split_and_upload0 empty_world [1, 2 :: nat] [3, 4] 2 ''train'') = Inr ()
   \<and> snd (split_and_upload1 empty_world [1, 2 :: nat] [3, 4] 2 ''train'') = Inr ()
   \<and> saved_paths (trace (fst (split_and_upload0 empty_world [1, 2 :: nat] [3, 4] 2 ''train'')))
       = [''/tmp/0'', ''/tmp/1'']
   \<and> saved_paths (trace (fst (split_and_upload1 empty_world [1, 2 :: nat] [3, 4] 2 ''train'')))
       = [''/tmp/0'', ''/tmp/1'']
   \<and> distinct [''/tmp/0'', ''/tmp/1'']"
proof -
  have h0: "snd (split_and_upload0 empty_world [1, 2 :: nat] [3, 4] 2 ''train'') = Inr ()"
    by (simp add: run_succeeds_iff0)
  have h1: "snd (split_and_upload1 empty_world [1, 2 :: nat] [3, 4] 2 ''train'') = Inr ()"
    by (simp add: run_succeeds_iff1)
  note t = split_and_upload_local_paths [of empty_world "[1, 2 :: nat]" "[3, 4]" 2 "''train''"]
  have a0: "saved_paths (trace (fst (split_and_upload0 empty_world [1, 2 :: nat] [3, 4] 2 ''train'')))
       = [''/tmp/0'', ''/tmp/1'']"
    using t h0
    by (simp only: upt_2) (simp add: saved_paths_def empty_world_def format_int_0 format_int_1)
  have a1: "saved_paths (trace (fst (split_and_upload1 empty_world [1, 2 :: nat] [3, 4] 2 ''train'')))
       = [''/tmp/0'', ''/tmp/1'']"
    using t h1
    by (simp only: upt_2) (simp add: saved_paths_def empty_world_def format_int_0 format_int_1)
  have b: "distinct [''/tmp/0'', ''/tmp/1'']"
    using t by (simp only: upt_2) (simp add: format_int_0 format_int_1)
  show ?thesis using h0 h1 a0 a1 b by (simp only: simp_thms)
qed

text \<open>
  C6 as stated fails on two rows split into two shards: the two shards are written to
  two different local paths, and the file of shard 0 is still in place after shard 1 has
  been written.
\<close>

theorem split_and_upload_two_local_files:
  "saved_paths (trace (fst (split_and_upload1 empty_world [10, 20 :: nat] [30, 40] 2 ''train'')))
     = [''/tmp/0'', ''/tmp/1'']
   \<and> local_fs (fst (split_and_upload1 empty_world [10, 20 :: nat] [30, 40] 2 ''train'')) ''/tmp/0''
       = Some [(''X'', [10]), (''y'', [30])]
   \<and> local_fs (fst (split_and_upload1 empty_world [10, 20 :: nat] [30, 40] 2 ''train'')) ''/tmp/1''
       = Some [(''X'', [20]), (''y'', [40])]"
proof -
  have sp: "shard_path 0 = ''/tmp/0''" "shard_path 1 = ''/tmp/1''"
    by (simp_all add: shard_path_def os_path_join_def local_dir_def format_int_0 format_int_1)
  have tr: "shard_triples [10, 20 :: nat] [30, 40 :: nat] 2 = [([10], [30], 0), ([20], [40], 1)]"
    by (simp only: shard_triples_map upt_2) simp
  have r: "fst (split_and_upload1 empty_world [10, 20 :: nat] [30, 40] 2 ''train'')
      = fold (put_shard upload_filename1 ''train'') [([10], [30], 0), ([20], [40], 1)] empty_world"
    by (simp add: split_and_upload1_run tr)
  show ?thesis
    unfolding r
    by (simp add: put_shard_def shard_effects_def sp shard_file_def saved_paths_def empty_world_def)
qed

text \<open>
  C9. On every input the two notebooks' \<open>split_and_upload\<close> end alike (both succeed,
  or both raise the same exception), leave the same local files, write the same shard
  files in the same order, and have the same trace once the keys of the uploads are
  forgotten. In a successful run each of them stores, for every shard index, the same
  shard under its own key for that index. The print calls are outside the model.
\<close>

theorem split_and_upload_revisions_agree:
  "snd (split_and_upload0 w X y k folder) = snd (split_and_upload1 w X y k folder)
   \<and> local_fs (fst (split_and_upload0 w X y k folder)) = local_fs (fst (split_and_upload1 w X y k folder))
   \<and> saved_files (trace (fst (split_and_upload0 w X y k folder)))
       = saved_files (trace (fst (split_and_upload1 w X y k folder)))
   \<and> map erase_key (trace (fst (split_and_upload0 w X y k folder)))
       = map erase_key (trace (fst (split_and_upload1 w X y k folder)))
   \<and> (snd (split_and_upload1 w X y k folder) = Inr () \<longrightarrow>
        (\<forall>i<nat k.
           s3_store (fst (split_and_upload0 w X y k folder))
             (bucket_name, upload_filename0 folder (format_int (int i)))
           = Some (shard_file (take (length X div nat k) (drop (i * (length X div nat k)) X))
                              (take (length X div nat k) (drop (i * (length X div nat k)) y)))
         \<and> s3_store (fst (split_and_upload1 w X y k folder))
             (bucket_name, upload_filename1 folder (format_int (int i)))
           = Some (shard_file (take (length X div nat k) (drop (i * (length X div nat k)) X))
                              (take (length X div nat k) (drop (i * (length X div nat k)) y)))))"
proof -
  have res: "snd (split_and_upload0 w X y k folder) = snd (split_and_upload1 w X y k folder)"
    by (simp add: split_and_upload0_run split_and_upload1_run)
  have lf: "local_fs (fst (split_and_upload0 w X y k folder))
            = local_fs (fst (split_and_upload1 w X y k folder))"
    using local_fs_fold_put_any [of w w upload_filename0 folder "shard_triples X y k" upload_filename1]
    by (simp add: split_and_upload0_run split_and_upload1_run)
  have sf: "saved_files (trace (fst (split_and_upload0 w X y k folder)))
       = saved_files (trace (fst (split_and_upload1 w X y k folder)))"
    by (simp add: split_and_upload0_run split_and_upload1_run fold_put_files)
  have ek: "map erase_key (trace (fst (split_and_upload0 w X y k folder)))
       = map erase_key (trace (fst (split_and_upload1 w X y k folder)))"
    using erase_key_effects [of upload_filename0 folder "shard_triples X y k" upload_filename1]
    by (simp add: split_and_upload0_run split_and_upload1_run trace_fold_put)
  have st: "snd (split_and_upload1 w X y k folder) = Inr () \<longrightarrow>
        (\<forall>i<nat k.
           s3_store (fst (split_and_upload0 w X y k folder))
             (bucket_name, upload_filename0 folder (format_int (int i)))
           = Some (shard_file (take (length X div nat k) (drop (i * (length X div nat k)) X))
                              (take (length X div nat k) (drop (i * (length X div nat k)) y)))
         \<and> s3_store (fst (split_and_upload1 w X y k folder))
             (bucket_name, upload_filename1 folder (format_int (int i)))
           = Some (shard_file (take (length X div nat k) (drop (i * (length X div nat k)) X))
                              (take (length X div nat k) (drop (i * (length X div nat k)) y))))"
  proof (intro impI allI conjI)
    assume ok1: "snd (split_and_upload1 w X y k folder) = Inr ()"
    then have ok0: "snd (split_and_upload0 w X y k folder) = Inr ()" using res by simp
    fix i assume i: "i < nat k"
    show "s3_store (fst (split_and_upload0 w X y k folder))
             (bucket_name, upload_filename0 folder (format_int (int i)))
           = Some (shard_file (take (length X div nat k) (drop (i * (length X div nat k)) X))
                              (take (length X div nat k) (drop (i * (length X div nat k)) y)))"
      unfolding run_world0 [OF ok0]
      by (rule fold_put_store) (use i upload_filename0_inj in auto)
    show "s3_store (fst (split_and_upload1 w X y k folder))
             (bucket_name, upload_filename1 folder (format_int (int i)))
           = Some (shard_file (take (length X div nat k) (drop (i * (length X div nat k)) X))
                              (take (length X div nat k) (drop (i * (length X div nat k)) y)))"
      unfolding run_world1 [OF ok1]
      by (rule fold_put_store) (use i upload_filename1_inj in auto)
  qed
  show ?thesis using res lf sf ek st by (intro conjI)
qed

theorem split_and_upload_revisions_agree_witness:
  "snd (split_and_upload1 empty_world [1, 2 :: nat] [3, 4] 2 ''train'') = Inr ()
   \<and> s3_store (fst (split_and_upload0 empty_world [1, 2 :: nat] [3, 4] 2 ''train''))
       (''eduthie-sagemaker-1'', ''distributed_training_gluon_lab//train/1'')
       = Some [(''X'', [2]), (''y'', [4])]
   \<and> s3_store (fst (split_and_upload1 empty_world [1, 2 :: nat] [3, 4] 2 ''train''))
       (''eduthie-sagemaker-1'', ''distributed_training_gluon_lab/train/1'')
       = Some [(''X'', [2]), (''y'', [4])]"
proof -
  have h: "snd (split_and_upload1 empty_world [1, 2 :: nat] [3, 4] 2 ''train'') = Inr ()"
    by (simp add: run_succeeds_iff1)
  have i: "(1::nat) < nat 2" by simp
  note t = split_and_upload_revisions_agree [of empty_world "[1, 2 :: nat]" "[3, 4]" 2 "''train''"]
  from t h i have
    "s3_store (fst (split_and_upload0 empty_world [1, 2 :: nat] [3, 4] 2 ''train''))
             (bucket_name, upload_filename0 ''train'' (format_int (int 1)))
           = Some (shard_file (take (length [1, 2 :: nat] div nat 2) (drop (1 * (length [1, 2 :: nat] div nat 2)) [1, 2 :: nat]))
                              (take (length [1, 2 :: nat] div nat 2) (drop (1 * (length [1, 2 :: nat] div nat 2)) [3, 4]))) 
     \<and> s3_store (fst (split_and_upload1 empty_world [1, 2 :: nat] [3, 4] 2 ''train''))
             (bucket_name, upload_filename1 ''train'' (format_int (int 1)))
           = Some (shard_file (take (length [1, 2 :: nat] div nat 2) (drop (1 * (length [1, 2 :: nat] div nat 2)) [1, 2 :: nat]))
                              (take (length [1, 2 :: nat] div nat 2) (drop (1 * (length [1, 2 :: nat] div nat 2)) [3, 4])))"
    by blast
  then have a: "s3_store (fst (split_and_upload0 empty_world [1, 2 :: nat] [3, 4] 2 ''train''))
       (''eduthie-sagemaker-1'', ''distributed_training_gluon_lab//train/1'')
       = Some [(''X'', [2]), (''y'', [4])]
   \<and> s3_store (fst (split_and_upload1 empty_world [1, 2 :: nat] [3, 4] 2 ''train''))
       (''eduthie-sagemaker-1'', ''distributed_training_gluon_lab/train/1'')
       = Some [(''X'', [2]), (''y'', [4])]"
    by (simp add: bucket_name_def upload_filename0_def upload_filename1_def prefix_def
        format_int_1 shard_file_def)
  show ?thesis using h a by (simp only: simp_thms)
qed

text \<open>
  C10, as amended. For a non-empty \<open>X\<close> and \<open>k \<ge> 1\<close> dividing \<open>n = len(X)\<close>, the
  boundary list is \<open>[0, s, 2 * s, ..., k * s]\<close> with \<open>s = n / k\<close>; it has \<open>k + 1\<close>
  elements, the reads \<open>idx[i]\<close> and \<open>idx[i+1]\<close> are in bounds for every \<open>i < k\<close>, both
  comprehensions return their \<open>k\<close> slices, and the run ends without an exception.
\<close>

theorem split_idx_in_bounds:
  assumes "1 \<le> k" and "k dvd int (length X)" and "X \<noteq> []"
  shows "split_idx (int (length X)) k
           = Inr (map (\<lambda>j. int (j * (length X div nat k))) [0..<Suc (nat k)])
       \<and> length (map (\<lambda>j. int (j * (length X div nat k))) [0..<Suc (nat k)]) = nat k + 1
       \<and> (\<forall>i<nat k.
             py_index (map (\<lambda>j. int (j * (length X div nat k))) [0..<Suc (nat k)]) (int i)
               = Inr (int (i * (length X div nat k)))
           \<and> py_index (map (\<lambda>j. int (j * (length X div nat k))) [0..<Suc (nat k)]) (int i + 1)
               = Inr (int ((i + 1) * (length X div nat k))))
       \<and> shard_list X (map (\<lambda>j. int (j * (length X div nat k))) [0..<Suc (nat k)]) (py_range1 k)
           = Inr (slices X (length X div nat k) (nat k))
       \<and> shard_list y (map (\<lambda>j. int (j * (length X div nat k))) [0..<Suc (nat k)]) (py_range1 k)
           = Inr (slices y (length X div nat k) (nat k))
       \<and> snd (split_and_upload0 w X y k folder) = Inr ()
       \<and> snd (split_and_upload1 w X y k folder) = Inr ()"
proof -
  define K where "K = nat k"
  define s where "s = length X div K"
  let ?idx = "map (\<lambda>j. int (j * s)) [0..<Suc K]"
  have k: "k = int K" and Kpos: "0 < K" using assms(1) by (simp_all add: K_def)
  have dv: "K dvd length X" using assms(2) unfolding k by (simp only: int_dvd_int_iff)
  have c1: "split_idx (int (length X)) k = Inr ?idx"
    unfolding k s_def using Kpos assms(3) dv by (intro split_idx_pos) auto
  have c2: "length ?idx = K + 1" by (simp del: upt_Suc)
  have c3: "\<forall>i<K. py_index ?idx (int i) = Inr (int (i * s))
                 \<and> py_index ?idx (int i + 1) = Inr (int ((i + 1) * s))"
  proof (intro allI impI conjI)
    fix i assume i: "i < K"
    then show "py_index ?idx (int i) = Inr (int (i * s))" by (intro idx_index) simp
    have "py_index ?idx (int (i + 1)) = Inr (int ((i + 1) * s))" using i by (intro idx_index) simp
    moreover have "int (i + 1) = int i + 1" by simp
    ultimately show "py_index ?idx (int i + 1) = Inr (int ((i + 1) * s))" by (simp only:)
  qed
  have c4: "shard_list X ?idx (py_range1 k) = Inr (slices X s K)"
    unfolding K_def by (rule shard_list_slices)
  have c5: "shard_list y ?idx (py_range1 k) = Inr (slices y s K)"
    unfolding K_def by (rule shard_list_slices)
  have c6: "snd (split_and_upload0 w X y k folder) = Inr ()"
    using assms by (simp add: run_succeeds_iff0)
  have c7: "snd (split_and_upload1 w X y k folder) = Inr ()"
    using assms by (simp add: run_succeeds_iff1)
  show ?thesis
    using c1 c2 c3 c4 c5 c6 c7 unfolding s_def K_def by (intro conjI)
qed

theorem split_idx_in_bounds_witness:
  "(1::int) \<le> 2 \<and> (2::int) dvd int (length [1, 2, 3, 4 :: nat]) \<and> [1, 2, 3, 4 :: nat] \<noteq> []
   \<and> split_idx (int (length [1, 2, 3, 4 :: nat])) 2 = Inr [0, 2, 4]
   \<and> shard_list [1, 2, 3, 4 :: nat] [0, 2, 4] (py_range1 2) = Inr [[1, 2], [3, 4]]"
proof -
  have h1: "(1::int) \<le> 2" by simp
  have h2: "(2::int) dvd int (length [1, 2, 3, 4 :: nat])" by simp
  have h3: "[1, 2, 3, 4 :: nat] \<noteq> []" by simp
  have u: "[0..<Suc (nat 2)] = [0, 1, 2]" by (simp add: numeral_2_eq_2 upt_rec)
  note t = split_idx_in_bounds [OF h1 h2 h3, of "[5, 6, 7, 8]" empty_world "''train''"]
  have a: "split_idx (int (length [1, 2, 3, 4 :: nat])) 2 = Inr [0, 2, 4]"
    using t by (simp only: u) simp
  have b: "shard_list [1, 2, 3, 4 :: nat] [0, 2, 4] (py_range1 2) = Inr [[1, 2], [3, 4]]"
    using t by (simp only: u upt_2 slices_def) simp
  show ?thesis using h1 h2 h3 a b by (simp only: simp_thms)
qed

text \<open>
  C10 as stated fails for the empty dataset and \<open>k = 1\<close>: the step \<open>n//k\<close> is zero
  and \<open>range\<close> raises \<open>ValueError\<close>, so there is no boundary list at all.
\<close>

theorem split_idx_empty_dataset:
  "(1::int) \<le> 1 \<and> (1::int) dvd int (length ([] :: nat list))
   \<and> split_idx (int (length ([] :: nat list))) 1 = Inl ValueError"
  by (simp add: split_idx_def py_floordiv_def py_range_def)

end
